theory Spec2Isabelle
  imports Main "HOL-Library.Word"
begin

section \<open>Solidity value types and failures\<close>

type_synonym uint256 = "256 word"
type_synonym uint32 = "32 word"
type_synonym address = "160 word"
type_synonym bytes = "8 word list"

text \<open>An \<open>externalEuint32\<close> is a \<open>bytes32\<close> naming a ciphertext supplied by the caller.\<close>

type_synonym externalEuint32 = "256 word"

text \<open>
  Every way a call of the contract can revert:
  \<^item> \<open>ProofVerificationFailure\<close>: \<open>FHE.fromExternal\<close> rejects the input proof;
  \<^item> \<open>NotFound\<close>: \<open>require(claims[claimId].exists, "Claim does not exist")\<close>;
  \<^item> \<open>DelayIntegrityFailure\<close>: \<open>revert("Delay calculation error")\<close> in \<open>_addDelay\<close>;
  \<^item> \<open>Panic\<close>: checked \<open>uint256\<close> arithmetic of Solidity 0.8 overflowing.
\<close>

datatype error = ProofVerificationFailure | NotFound | DelayIntegrityFailure | Panic

definition bind_result :: "error + 'a \<Rightarrow> ('a \<Rightarrow> error + 'b) \<Rightarrow> error + 'b" where
  "bind_result r f = (case r of Inl e \<Rightarrow> Inl e | Inr x \<Rightarrow> f x)"

definition checked_inc :: "uint256 \<Rightarrow> error + uint256" where
  "checked_inc x = (if x = - 1 then Inl Panic else Inr (x + 1))"

section \<open>The confidential-compute backend\<close>

text \<open>
  Modelled from the spec: the FHE library (\<open>@fhevm/solidity/lib/FHE.sol\<close>) that the
  contract imports is not part of the sources. Following the design notes, a ciphertext
  handle is an opaque value with identity and provenance (the operation and the input
  handles that produced it); all arithmetic is over the unsigned 32-bit domain and wraps
  modulo \<open>2 ^ 32\<close>; division takes a plaintext divisor. \<open>NullHandle\<close> is the zero
  \<open>bytes32\<close> of an unwritten storage slot.
\<close>

datatype euint32 =
    NullHandle
  | FromExternal externalEuint32
  | TrivialEncrypt uint32
  | FheSub euint32 euint32
  | FheMul euint32 euint32
  | FheDiv euint32 uint32

text \<open>
  Modelled from the spec: what the backend knows about external inputs, namely which
  (sender, ciphertext, proof) triples verify and which cleartext an external ciphertext
  holds, together with the address of the deployed contract (\<open>address(this)\<close>).
\<close>

record fhevm =
  contractAddress :: address
  inputVerifies :: "address \<Rightarrow> externalEuint32 \<Rightarrow> bytes \<Rightarrow> bool"
  cleartext :: "externalEuint32 \<Rightarrow> uint32"

definition FHE_fromExternal :: "fhevm \<Rightarrow> address \<Rightarrow> externalEuint32 \<Rightarrow> bytes \<Rightarrow> error + euint32" where
  "FHE_fromExternal B sender inputHandle inputProof =
     (if inputVerifies B sender inputHandle inputProof then Inr (FromExternal inputHandle)
      else Inl ProofVerificationFailure)"

definition FHE_asEuint32 :: "uint32 \<Rightarrow> euint32" where
  "FHE_asEuint32 v = TrivialEncrypt v"

definition FHE_sub :: "euint32 \<Rightarrow> euint32 \<Rightarrow> euint32" where
  "FHE_sub a b = FheSub a b"

definition FHE_mul :: "euint32 \<Rightarrow> euint32 \<Rightarrow> euint32" where
  "FHE_mul a b = FheMul a b"

definition FHE_div :: "euint32 \<Rightarrow> uint32 \<Rightarrow> euint32" where
  "FHE_div a d = FheDiv a d"

text \<open>The value a handle decrypts to: 32-bit words, so \<open>-\<close> and \<open>*\<close> wrap.\<close>

fun decrypt :: "fhevm \<Rightarrow> euint32 \<Rightarrow> uint32" where
  "decrypt B NullHandle = 0"
| "decrypt B (FromExternal h) = cleartext B h"
| "decrypt B (TrivialEncrypt v) = v"
| "decrypt B (FheSub a b) = decrypt B a - decrypt B b"
| "decrypt B (FheMul a b) = decrypt B a * decrypt B b"
| "decrypt B (FheDiv a d) = decrypt B a div d"

section \<open>Contract storage\<close>

record EncryptedClaim =
  lossAmount :: euint32
  riskLevel :: euint32
  payout :: euint32
  exists :: bool

datatype event = ClaimSubmitted uint256 address | ClaimEvaluated uint256

text \<open>
  \<open>claims\<close> is the Solidity mapping (total, every unwritten slot zero) and
  \<open>claimCounter\<close> the counter. \<open>acl\<close> holds the access grants issued through
  \<open>FHE.allow\<close> and \<open>FHE.allowThis\<close>, \<open>events\<close> the emitted log, newest last.
\<close>

record ledger =
  claims :: "uint256 \<Rightarrow> EncryptedClaim"
  claimCounter :: uint256
  acl :: "(euint32 \<times> address) set"
  events :: "event list"

definition emptyClaim :: EncryptedClaim where
  "emptyClaim = \<lparr>lossAmount = NullHandle, riskLevel = NullHandle, payout = NullHandle, exists = False\<rparr>"

definition deployed :: ledger where
  "deployed = \<lparr>claims = (\<lambda>_. emptyClaim), claimCounter = 0, acl = {}, events = []\<rparr>"

definition FHE_allow :: "euint32 \<Rightarrow> address \<Rightarrow> ledger \<Rightarrow> ledger" where
  "FHE_allow h who s = s\<lparr>acl := insert (h, who) (acl s)\<rparr>"

definition FHE_allowThis :: "fhevm \<Rightarrow> euint32 \<Rightarrow> ledger \<Rightarrow> ledger" where
  "FHE_allowThis B h s = FHE_allow h (contractAddress B) s"

definition emit :: "event \<Rightarrow> ledger \<Rightarrow> ledger" where
  "emit e s = s\<lparr>events := events s @ [e]\<rparr>"

section \<open>The contract\<close>

definition RISK_LEVEL_LOW :: uint32 where "RISK_LEVEL_LOW = 1"
definition RISK_LEVEL_MEDIUM :: uint32 where "RISK_LEVEL_MEDIUM = 2"
definition RISK_LEVEL_HIGH :: uint32 where "RISK_LEVEL_HIGH = 3"

definition PAYOUT_FULL :: uint32 where "PAYOUT_FULL = 10000"
definition PAYOUT_HIGH :: uint32 where "PAYOUT_HIGH = 8000"
definition PAYOUT_LOW :: uint32 where "PAYOUT_LOW = 5000"

definition DELAY_ITERATIONS :: uint256 where "DELAY_ITERATIONS = 200"

text \<open>
  The loop of \<open>_addDelay\<close>: \<open>for (uint256 i = 0; i < DELAY_ITERATIONS; i++)\<close> with
  the body \<open>sum := add(sum, i)\<close>. The assembly \<open>add\<close> wraps; \<open>i++\<close> is checked.
\<close>

function addDelay_loop :: "uint256 \<Rightarrow> uint256 \<Rightarrow> error + uint256" where
  "addDelay_loop i sm =
     (if i < DELAY_ITERATIONS
      then (case checked_inc i of
              Inl e \<Rightarrow> Inl e
            | Inr i' \<Rightarrow> addDelay_loop i' (sm + i))
      else Inr sm)"
  by pat_completeness auto

termination addDelay_loop
proof (relation "measure (\<lambda>(i, sm). unat (- 1 - i))")
  show "wf (measure (\<lambda>(i :: uint256, sm :: uint256). unat (- 1 - i)))"
    by simp
next
  fix i sm :: uint256 and i' :: uint256
  assume "i < DELAY_ITERATIONS" and inc: "checked_inc i = Inr i'"
  from inc have ne: "i \<noteq> - 1" and i': "i' = i + 1"
    by (auto simp: checked_inc_def split: if_splits)
  have a: "- 1 - (i + 1) = (- 1 - i) - 1"
    by simp
  have b: "- 1 - i \<noteq> 0"
    using ne by (metis eq_iff_diff_eq_0)
  have "unat (- 1 - (i + 1)) < unat (- 1 - i)"
    unfolding a using b by (rule measure_unat)
  then show "((i', sm + i), (i, sm)) \<in> measure (\<lambda>(i, sm). unat (- 1 - i))"
    by (simp add: i')
qed

declare addDelay_loop.simps [simp del]

text \<open>
  \<open>_addDelay\<close>: run the loop from \<open>i = 0\<close>, \<open>sum = 0\<close>, then
  \<open>if (sum == 0 && DELAY_ITERATIONS > 0) revert("Delay calculation error")\<close>.
\<close>

definition addDelay :: "error + unit" where
  "addDelay =
     (case addDelay_loop 0 0 of
        Inl e \<Rightarrow> Inl e
      | Inr sm \<Rightarrow>
          if sm = 0 \<and> DELAY_ITERATIONS > 0 then Inl DelayIntegrityFailure else Inr ())"

definition submitClaim ::
  "fhevm \<Rightarrow> address \<Rightarrow> externalEuint32 \<Rightarrow> externalEuint32 \<Rightarrow> bytes \<Rightarrow> ledger
     \<Rightarrow> error + (uint256 \<times> ledger)" where
  "submitClaim B sender lossAmountEuint32 riskLevelEuint32 inputProof s =
     bind_result (FHE_fromExternal B sender lossAmountEuint32 inputProof) (\<lambda>encryptedLossAmount.
     bind_result (FHE_fromExternal B sender riskLevelEuint32 inputProof) (\<lambda>encryptedRiskLevel.
     let claimId = claimCounter s in
     bind_result (checked_inc (claimCounter s)) (\<lambda>counter'.
     let s1 = s\<lparr>claimCounter := counter'\<rparr>;
         s2 = s1\<lparr>claims := (claims s1)(claimId :=
                \<lparr>lossAmount = encryptedLossAmount,
                 riskLevel = encryptedRiskLevel,
                 payout = FHE_asEuint32 0,
                 exists = True\<rparr>)\<rparr>;
         s3 = FHE_allowThis B encryptedLossAmount s2;
         s4 = FHE_allow encryptedLossAmount sender s3;
         s5 = FHE_allowThis B encryptedRiskLevel s4;
         s6 = FHE_allow encryptedRiskLevel sender s5;
         s7 = emit (ClaimSubmitted claimId sender) s6
     in Inr (claimId, s7))))"

definition evaluateClaim :: "fhevm \<Rightarrow> address \<Rightarrow> uint256 \<Rightarrow> ledger \<Rightarrow> error + ledger" where
  "evaluateClaim B sender claimId s =
     (if \<not> exists (claims s claimId) then Inl NotFound
      else
        let riskLevelMinusOne = FHE_sub (riskLevel (claims s claimId)) (FHE_asEuint32 1) in
        bind_result addDelay (\<lambda>_.
        let riskMultiplier = FHE_mul riskLevelMinusOne (FHE_asEuint32 2500) in
        bind_result addDelay (\<lambda>_.
        let payoutPercent = FHE_sub (FHE_asEuint32 PAYOUT_FULL) riskMultiplier in
        bind_result addDelay (\<lambda>_.
        let payoutNumerator = FHE_mul (lossAmount (claims s claimId)) payoutPercent in
        bind_result addDelay (\<lambda>_.
        let calculatedPayout = FHE_div payoutNumerator 10000;
            s1 = s\<lparr>claims := (claims s)(claimId :=
                   (claims s claimId)\<lparr>payout := calculatedPayout\<rparr>)\<rparr>;
            s2 = FHE_allowThis B calculatedPayout s1;
            s3 = FHE_allow calculatedPayout sender s2;
            s4 = emit (ClaimEvaluated claimId) s3
        in Inr s4)))))"

definition getLossAmount :: "ledger \<Rightarrow> uint256 \<Rightarrow> error + euint32" where
  "getLossAmount s claimId =
     (if \<not> exists (claims s claimId) then Inl NotFound else Inr (lossAmount (claims s claimId)))"

definition getRiskLevel :: "ledger \<Rightarrow> uint256 \<Rightarrow> error + euint32" where
  "getRiskLevel s claimId =
     (if \<not> exists (claims s claimId) then Inl NotFound else Inr (riskLevel (claims s claimId)))"

definition getPayout :: "ledger \<Rightarrow> uint256 \<Rightarrow> error + euint32" where
  "getPayout s claimId =
     (if \<not> exists (claims s claimId) then Inl NotFound else Inr (payout (claims s claimId)))"

definition getClaim :: "ledger \<Rightarrow> uint256 \<Rightarrow> error + (euint32 \<times> euint32 \<times> euint32)" where
  "getClaim s claimId =
     (if \<not> exists (claims s claimId) then Inl NotFound
      else Inr (lossAmount (claims s claimId), riskLevel (claims s claimId),
                payout (claims s claimId)))"

definition getClaimCount :: "ledger \<Rightarrow> uint256" where
  "getClaimCount s = claimCounter s"

definition claimExists :: "ledger \<Rightarrow> uint256 \<Rightarrow> bool" where
  "claimExists s claimId = exists (claims s claimId)"

section \<open>Calls and transactions\<close>

text \<open>
  The external interface of the contract: each call comes with its \<open>msg.sender\<close>
  and either returns a value and a new state, or reverts. A reverted call commits
  nothing, so the state after it is the state before it.
\<close>

datatype call =
    SubmitClaim externalEuint32 externalEuint32 bytes
  | EvaluateClaim uint256
  | GetLossAmount uint256
  | GetRiskLevel uint256
  | GetPayout uint256
  | GetClaim uint256
  | GetClaimCount
  | ClaimExists uint256

datatype retval =
    RetId uint256
  | RetNone
  | RetHandle euint32
  | RetClaim euint32 euint32 euint32
  | RetCount uint256
  | RetBool bool

fun execute :: "fhevm \<Rightarrow> address \<Rightarrow> call \<Rightarrow> ledger \<Rightarrow> error + (retval \<times> ledger)" where
  "execute B sender (SubmitClaim l r p) s =
     bind_result (submitClaim B sender l r p s) (\<lambda>(claimId, s'). Inr (RetId claimId, s'))"
| "execute B sender (EvaluateClaim claimId) s =
     bind_result (evaluateClaim B sender claimId s) (\<lambda>s'. Inr (RetNone, s'))"
| "execute B sender (GetLossAmount claimId) s =
     bind_result (getLossAmount s claimId) (\<lambda>h. Inr (RetHandle h, s))"
| "execute B sender (GetRiskLevel claimId) s =
     bind_result (getRiskLevel s claimId) (\<lambda>h. Inr (RetHandle h, s))"
| "execute B sender (GetPayout claimId) s =
     bind_result (getPayout s claimId) (\<lambda>h. Inr (RetHandle h, s))"
| "execute B sender (GetClaim claimId) s =
     bind_result (getClaim s claimId) (\<lambda>(l, r, p). Inr (RetClaim l r p, s))"
| "execute B sender GetClaimCount s = Inr (RetCount (getClaimCount s), s)"
| "execute B sender (ClaimExists claimId) s = Inr (RetBool (claimExists s claimId), s)"

definition transact :: "fhevm \<Rightarrow> address \<Rightarrow> call \<Rightarrow> ledger \<Rightarrow> (error + retval) \<times> ledger" where
  "transact B sender c s =
     (case execute B sender c s of
        Inl e \<Rightarrow> (Inl e, s)
      | Inr (r, s') \<Rightarrow> (Inr r, s'))"

text \<open>A history is a list of calls with their senders, applied in order from a state.\<close>

fun run :: "fhevm \<Rightarrow> ledger \<Rightarrow> (address \<times> call) list \<Rightarrow> ledger" where
  "run B s [] = s"
| "run B s ((sender, c) # cs) = run B (snd (transact B sender c s)) cs"

section \<open>Derived notions used in the statements\<close>

text \<open>
  The provenance of the handle that \<open>evaluateClaim\<close> stores for a claim, in closed
  form (lemma \<open>evaluateClaim_eq\<close> shows that this is what the code builds).
\<close>

definition payoutHandle :: "EncryptedClaim \<Rightarrow> euint32" where
  "payoutHandle c =
     FheDiv (FheMul (lossAmount c)
                    (FheSub (TrivialEncrypt 10000)
                            (FheMul (FheSub (riskLevel c) (TrivialEncrypt 1))
                                    (TrivialEncrypt 2500))))
            10000"

text \<open>
  A concrete backend for running examples: every proof verifies, and the external
  ciphertext named \<open>h\<close> holds the cleartext \<open>pt h\<close>.
\<close>

definition testBackend :: "(externalEuint32 \<Rightarrow> uint32) \<Rightarrow> fhevm" where
  "testBackend pt = \<lparr>contractAddress = 99, inputVerifies = (\<lambda>_ _ _. True), cleartext = pt\<rparr>"

text \<open>
  What a client reads back: the handle from \<open>getPayout\<close>, decrypted by the backend.
\<close>

definition decryptedPayout :: "fhevm \<Rightarrow> ledger \<Rightarrow> uint256 \<Rightarrow> error + uint32" where
  "decryptedPayout B s claimId = bind_result (getPayout s claimId) (\<lambda>h. Inr (decrypt B h))"

text \<open>
  The two-call scenario on a fresh ledger: account 5 submits the external ciphertexts 7
  and 8, holding the cleartexts \<open>loss\<close> and \<open>risk\<close>, and then evaluates claim 0.
\<close>

definition scenarioBackend :: "uint32 \<Rightarrow> uint32 \<Rightarrow> fhevm" where
  "scenarioBackend loss risk = testBackend (\<lambda>h. if h = 7 then loss else risk)"

definition scenario :: "uint32 \<Rightarrow> uint32 \<Rightarrow> ledger" where
  "scenario loss risk =
     run (scenarioBackend loss risk) deployed [(5, SubmitClaim 7 8 []), (5, EvaluateClaim 0)]"

section \<open>The delay\<close>

lemma addDelay_loop_sum: "addDelay_loop 0 0 = Inr 19900"
  by (simp add: addDelay_loop.simps DELAY_ITERATIONS_def checked_inc_def)

lemma addDelay_returns: "addDelay = Inr ()"
  by (simp add: addDelay_def addDelay_loop_sum DELAY_ITERATIONS_def)

section \<open>Closed forms of the two state-changing functions\<close>

lemma evaluateClaim_eq:
  "evaluateClaim B sender claimId s =
     (if exists (claims s claimId)
      then Inr (s\<lparr>claims := (claims s)(claimId :=
                    (claims s claimId)\<lparr>payout := payoutHandle (claims s claimId)\<rparr>),
                 acl := insert (payoutHandle (claims s claimId), sender)
                          (insert (payoutHandle (claims s claimId), contractAddress B) (acl s)),
                 events := events s @ [ClaimEvaluated claimId]\<rparr>)
      else Inl NotFound)"
  by (simp add: evaluateClaim_def addDelay_returns bind_result_def Let_def payoutHandle_def
      FHE_sub_def FHE_mul_def FHE_div_def FHE_asEuint32_def PAYOUT_FULL_def
      FHE_allow_def FHE_allowThis_def emit_def)

lemma submitClaim_eq:
  "submitClaim B sender l r p s =
     (if \<not> inputVerifies B sender l p \<or> \<not> inputVerifies B sender r p
      then Inl ProofVerificationFailure
      else if claimCounter s = - 1 then Inl Panic
      else Inr (claimCounter s,
             s\<lparr>claimCounter := claimCounter s + 1,
               claims := (claims s)(claimCounter s :=
                  \<lparr>lossAmount = FromExternal l, riskLevel = FromExternal r,
                   payout = TrivialEncrypt 0, exists = True\<rparr>),
               acl := insert (FromExternal r, sender)
                        (insert (FromExternal r, contractAddress B)
                          (insert (FromExternal l, sender)
                            (insert (FromExternal l, contractAddress B) (acl s)))),
               events := events s @ [ClaimSubmitted (claimCounter s) sender]\<rparr>))"
  by (simp add: submitClaim_def bind_result_def Let_def FHE_fromExternal_def checked_inc_def
      FHE_asEuint32_def FHE_allow_def FHE_allowThis_def emit_def)

text \<open>
  C9: the failure branch of the delay is unreachable. With the fixed iteration count
  200 the loop returns the sum of 0..199, which is 19900 and not zero, so
  \<open>_addDelay\<close> always returns normally and no call of the contract ever aborts with
  \<open>DelayIntegrityFailure\<close>.
\<close>

theorem addDelay_never_fails:
  "addDelay_loop 0 0 = Inr 19900 \<and> addDelay = Inr () \<and>
   execute B sender c s \<noteq> Inl DelayIntegrityFailure"
proof -
  have "execute B sender c s \<noteq> Inl DelayIntegrityFailure"
    by (cases c)
       (simp_all add: evaluateClaim_eq submitClaim_eq bind_result_def getLossAmount_def
          getRiskLevel_def getPayout_def getClaim_def)
  then show ?thesis
    by (simp add: addDelay_loop_sum addDelay_returns)
qed

section \<open>The counter and the existence flags\<close>

lemma unat_succ: "c \<noteq> - 1 \<Longrightarrow> unat (c + 1) = Suc (unat (c::uint256))"
proof -
  assume "c \<noteq> - 1"
  then have "1 + c \<noteq> 0"
    by (metis add_eq_0_iff)
  then show ?thesis
    by (simp add: unatSuc add.commute)
qed

lemma word_less_succ: "c \<noteq> - 1 \<Longrightarrow> (cid < c + 1) = (cid < c \<or> cid = (c::uint256))"
  by (auto simp: word_less_nat_alt unat_succ word_unat_eq_iff)

lemma word_lt_succ: "c \<noteq> - 1 \<Longrightarrow> c < c + (1::uint256)"
  by (simp add: word_less_nat_alt unat_succ)

text \<open>The state a call leaves behind: only the two state-changing calls can move it.\<close>

lemma step_eq:
  "snd (transact B sender c s) =
     (case c of
        SubmitClaim l r p \<Rightarrow>
          (case submitClaim B sender l r p s of Inl e \<Rightarrow> s | Inr (i, s') \<Rightarrow> s')
      | EvaluateClaim claimId \<Rightarrow>
          (case evaluateClaim B sender claimId s of Inl e \<Rightarrow> s | Inr s' \<Rightarrow> s')
      | _ \<Rightarrow> s)"
  by (cases c)
     (auto simp: transact_def bind_result_def getLossAmount_def getRiskLevel_def getPayout_def
        getClaim_def split: sum.splits prod.splits)

lemma transact_exists_iff:
  assumes "\<forall>cid. exists (claims s cid) = (cid < claimCounter s)"
  shows "exists (claims (snd (transact B sender c s)) cid) =
         (cid < claimCounter (snd (transact B sender c s)))"
  using assms
  by (cases c) (auto simp: step_eq submitClaim_eq evaluateClaim_eq word_less_succ)

lemma run_exists_iff:
  "\<forall>cid. exists (claims s cid) = (cid < claimCounter s) \<Longrightarrow>
   exists (claims (run B s cs) cid) = (cid < claimCounter (run B s cs))"
proof (induction cs arbitrary: s)
  case Nil
  then show ?case by simp
next
  case (Cons a cs)
  obtain sender c where a: "a = (sender, c)" by (cases a)
  have "\<forall>cid. exists (claims (snd (transact B sender c s)) cid) =
          (cid < claimCounter (snd (transact B sender c s)))"
    using transact_exists_iff [OF Cons.prems] by blast
  from Cons.IH [OF this] show ?case by (simp add: a)
qed

lemma deployed_exists_iff: "\<forall>cid. exists (claims deployed cid) = (cid < claimCounter deployed)"
  by (simp add: deployed_def emptyClaim_def)

lemma reachable_exists_iff:
  "exists (claims (run B deployed cs) cid) = (cid < claimCounter (run B deployed cs))"
  by (rule run_exists_iff [OF deployed_exists_iff])

lemma transact_exists_mono:
  "exists (claims s cid) \<Longrightarrow> exists (claims (snd (transact B sender c s)) cid)"
  by (cases c) (auto simp: step_eq submitClaim_eq evaluateClaim_eq)

lemma run_exists_mono:
  "exists (claims s cid) \<Longrightarrow> exists (claims (run B s cs) cid)"
  by (induction cs arbitrary: s) (auto simp: transact_exists_mono)

lemma transact_counter_mono: "claimCounter s \<le> claimCounter (snd (transact B sender c s))"
  using word_lt_succ [of "claimCounter s"]
  by (cases c) (auto simp: step_eq submitClaim_eq evaluateClaim_eq)

lemma run_counter_mono: "claimCounter s \<le> claimCounter (run B s cs)"
proof (induction cs arbitrary: s)
  case Nil
  then show ?case by simp
next
  case (Cons a cs)
  obtain sender c where a: "a = (sender, c)" by (cases a)
  have "claimCounter s \<le> claimCounter (snd (transact B sender c s))"
    by (rule transact_counter_mono)
  also have "\<dots> \<le> claimCounter (run B (snd (transact B sender c s)) cs)"
    by (rule Cons.IH)
  finally show ?case by (simp add: a)
qed

text \<open>
  C4: for every submission whose proof verifies (made while the \<open>uint256\<close> counter is
  below its maximum, which the design assumes: the checked increment reverts there),
  \<open>submitClaim\<close> returns the claim count before the call and \<open>getClaimCount\<close>
  afterwards is that count plus exactly 1, without wrapping. The count never decreases
  in any later history, so ids are sequential, strictly increasing and never reused.
\<close>

theorem submitClaim_allocates:
  assumes "inputVerifies B sender l p" and "inputVerifies B sender r p"
    and "getClaimCount s \<noteq> - 1"
  shows "\<exists>s'. submitClaim B sender l r p s = Inr (getClaimCount s, s') \<and>
              getClaimCount s' = getClaimCount s + 1 \<and>
              unat (getClaimCount s') = unat (getClaimCount s) + 1 \<and>
              getClaimCount s < getClaimCount s' \<and>
              (\<forall>cs. getClaimCount s' \<le> getClaimCount (run B s' cs))"
  using assms
  by (simp add: submitClaim_eq getClaimCount_def unat_succ word_lt_succ run_counter_mono)

theorem submitClaim_allocates_witness:
  "inputVerifies (testBackend (\<lambda>_. 0)) 5 7 [] \<and>
   inputVerifies (testBackend (\<lambda>_. 0)) 5 8 [] \<and>
   getClaimCount deployed \<noteq> - 1 \<and>
   (\<exists>s'. submitClaim (testBackend (\<lambda>_. 0)) 5 7 8 [] deployed = Inr (0, s') \<and>
         getClaimCount s' = 1)"
proof -
  have v1: "inputVerifies (testBackend (\<lambda>_. 0)) 5 7 []"
    and v2: "inputVerifies (testBackend (\<lambda>_. 0)) 5 8 []"
    by (simp_all add: testBackend_def)
  have c: "getClaimCount deployed \<noteq> - 1"
    by (simp add: getClaimCount_def deployed_def)
  have z: "getClaimCount deployed = 0"
    by (simp add: getClaimCount_def deployed_def)
  from submitClaim_allocates [OF v1 v2 c] obtain s'
    where "submitClaim (testBackend (\<lambda>_. 0)) 5 7 8 [] deployed = Inr (getClaimCount deployed, s')"
      and "getClaimCount s' = getClaimCount deployed + 1"
    by blast
  then have "submitClaim (testBackend (\<lambda>_. 0)) 5 7 8 [] deployed = Inr (0, s') \<and>
             getClaimCount s' = 1"
    by (simp add: z)
  then show ?thesis
    using v1 v2 c by blast
qed

text \<open>
  C5: in every state reached from deployment by any history of calls,
  \<open>claimExists(id)\<close> holds exactly when \<open>id < getClaimCount()\<close> (ids are unsigned,
  so \<open>0 \<le> id\<close> always holds); and an \<open>exists\<close> flag that is true stays true through
  every further history.
\<close>

theorem exists_iff_below_count:
  "(claimExists (run B deployed cs) cid \<longleftrightarrow> cid < getClaimCount (run B deployed cs)) \<and>
   (claimExists s cid \<longrightarrow> claimExists (run B s cs') cid)"
  using reachable_exists_iff [of B cs cid] run_exists_mono [of s cid B cs']
  by (simp add: claimExists_def getClaimCount_def)

lemmas run_defs = transact_def submitClaim_eq evaluateClaim_eq bind_result_def testBackend_def
  deployed_def emptyClaim_def claimExists_def getClaimCount_def payoutHandle_def

theorem exists_iff_below_count_witness:
  "claimExists (run (testBackend (\<lambda>_. 0)) deployed [(5, SubmitClaim 7 8 [])]) 0 \<and>
   claimExists (run (testBackend (\<lambda>_. 0))
       (run (testBackend (\<lambda>_. 0)) deployed [(5, SubmitClaim 7 8 [])])
       [(6, EvaluateClaim 0), (5, SubmitClaim 9 10 [])]) 0 \<and>
   \<not> claimExists (run (testBackend (\<lambda>_. 0)) deployed [(5, SubmitClaim 7 8 [])]) 1"
proof -
  let ?B = "testBackend (\<lambda>_. 0)"
  let ?s = "run ?B deployed [(5, SubmitClaim 7 8 [])]"
  have c: "getClaimCount ?s = 1"
    by (simp add: run_defs)
  have a: "claimExists ?s 0"
    using exists_iff_below_count [of ?B "[(5, SubmitClaim 7 8 [])]" 0] c by simp
  have b: "claimExists (run ?B ?s [(6, EvaluateClaim 0), (5, SubmitClaim 9 10 [])]) 0"
    using exists_iff_below_count
      [of ?B "[]" 0 ?s "[(6, EvaluateClaim 0), (5, SubmitClaim 9 10 [])]"] a
    by blast
  have d: "\<not> claimExists ?s 1"
    using exists_iff_below_count [of ?B "[(5, SubmitClaim 7 8 [])]" 1] c by simp
  show ?thesis using a b d by blast
qed

section \<open>What a history can and cannot change\<close>

lemma run_append: "run B s (xs @ ys) = run B (run B s xs) ys"
  by (induction xs arbitrary: s) auto

lemma transact_inputs_fixed:
  assumes "\<forall>i. exists (claims s i) = (i < claimCounter s)" and "exists (claims s cid)"
  shows "lossAmount (claims (snd (transact B sender c s)) cid) = lossAmount (claims s cid) \<and>
         riskLevel (claims (snd (transact B sender c s)) cid) = riskLevel (claims s cid)"
  using assms by (cases c) (auto simp: step_eq submitClaim_eq evaluateClaim_eq)

lemma run_inputs_fixed:
  assumes "\<forall>i. exists (claims s i) = (i < claimCounter s)" and "exists (claims s cid)"
  shows "lossAmount (claims (run B s cs) cid) = lossAmount (claims s cid) \<and>
         riskLevel (claims (run B s cs) cid) = riskLevel (claims s cid)"
  using assms
proof (induction cs arbitrary: s)
  case Nil
  then show ?case by simp
next
  case (Cons a cs)
  obtain sender c where a: "a = (sender, c)" by (cases a)
  let ?t = "snd (transact B sender c s)"
  have inv: "\<forall>i. exists (claims ?t i) = (i < claimCounter ?t)"
    using transact_exists_iff [OF Cons.prems(1)] by blast
  have ex: "exists (claims ?t cid)"
    using Cons.prems(2) by (rule transact_exists_mono)
  from Cons.IH [OF inv ex] transact_inputs_fixed [OF Cons.prems, of B sender c]
  show ?case by (simp add: a)
qed

lemma transact_payout_fixed:
  assumes "\<forall>i. exists (claims s i) = (i < claimCounter s)" and "exists (claims s cid)"
    and "c \<noteq> EvaluateClaim cid"
  shows "payout (claims (snd (transact B sender c s)) cid) = payout (claims s cid)"
  using assms by (cases c) (auto simp: step_eq submitClaim_eq evaluateClaim_eq)

lemma run_payout_fixed:
  assumes "\<forall>i. exists (claims s i) = (i < claimCounter s)" and "exists (claims s cid)"
    and "\<forall>a. (a, EvaluateClaim cid) \<notin> set cs"
  shows "payout (claims (run B s cs) cid) = payout (claims s cid)"
  using assms
proof (induction cs arbitrary: s)
  case Nil
  then show ?case by simp
next
  case (Cons a cs)
  obtain sender c where a: "a = (sender, c)" by (cases a)
  let ?t = "snd (transact B sender c s)"
  have inv: "\<forall>i. exists (claims ?t i) = (i < claimCounter ?t)"
    using transact_exists_iff [OF Cons.prems(1)] by blast
  have ex: "exists (claims ?t cid)"
    using Cons.prems(2) by (rule transact_exists_mono)
  have ne: "c \<noteq> EvaluateClaim cid" and rest: "\<forall>a. (a, EvaluateClaim cid) \<notin> set cs"
    using Cons.prems(3) by (auto simp: a)
  from Cons.IH [OF inv ex rest] transact_payout_fixed [OF Cons.prems(1,2) ne, of B sender]
  show ?case by (simp add: a)
qed

lemma transact_trivial_ungranted:
  "(TrivialEncrypt v, who) \<notin> acl s \<Longrightarrow> (TrivialEncrypt v, who) \<notin> acl (snd (transact B sender c s))"
  by (cases c) (auto simp: step_eq submitClaim_eq evaluateClaim_eq payoutHandle_def)

lemma run_trivial_ungranted:
  "(TrivialEncrypt v, who) \<notin> acl s \<Longrightarrow> (TrivialEncrypt v, who) \<notin> acl (run B s cs)"
proof (induction cs arbitrary: s)
  case Nil
  then show ?case by simp
next
  case (Cons a cs)
  obtain sender c where a: "a = (sender, c)" by (cases a)
  from Cons.prems have "(TrivialEncrypt v, who) \<notin> acl (snd (transact B sender c s))"
    by (rule transact_trivial_ungranted)
  from Cons.IH [OF this] show ?case by (simp add: a)
qed

lemma reachable_trivial_ungranted: "(TrivialEncrypt v, who) \<notin> acl (run B deployed cs)"
  by (rule run_trivial_ungranted) (simp add: deployed_def)

section \<open>Evaluation\<close>

text \<open>
  C7: evaluation is deterministic and repeatable. For every claim that exists in a state
  reached from deployment, evaluating it succeeds, and evaluating it again (by any
  caller, after any further history of calls) succeeds and stores a payout that decrypts
  to the same value, because the stored handle is built from the claim's
  \<open>lossAmount\<close> and \<open>riskLevel\<close> handles only, which no call changes.
\<close>

theorem evaluateClaim_repeatable:
  assumes "claimExists (run B deployed cs0) cid"
  shows "\<exists>s1 s2. evaluateClaim B a cid (run B deployed cs0) = Inr s1 \<and>
                 evaluateClaim B b cid (run B s1 cs) = Inr s2 \<and>
                 decrypt B (payout (claims s2 cid)) = decrypt B (payout (claims s1 cid)) \<and>
                 payout (claims s1 cid) = payoutHandle (claims (run B deployed cs0) cid)"
proof -
  let ?s = "run B deployed cs0"
  let ?s1 = "run B deployed (cs0 @ [(a, EvaluateClaim cid)])"
  have ex: "exists (claims ?s cid)"
    using assms by (simp add: claimExists_def)
  have e1: "evaluateClaim B a cid ?s = Inr ?s1"
    using ex by (simp add: run_append step_eq evaluateClaim_eq)
  have inv1: "\<forall>i. exists (claims ?s1 i) = (i < claimCounter ?s1)"
    using reachable_exists_iff by blast
  have ex1: "exists (claims ?s1 cid)"
    unfolding run_append using ex by (rule run_exists_mono)
  have p1: "payout (claims ?s1 cid) = payoutHandle (claims ?s cid)"
    using ex by (simp add: run_append step_eq evaluateClaim_eq)
  have in1: "lossAmount (claims ?s1 cid) = lossAmount (claims ?s cid) \<and>
             riskLevel (claims ?s1 cid) = riskLevel (claims ?s cid)"
    using ex by (simp add: run_append step_eq evaluateClaim_eq)
  let ?t = "run B ?s1 cs"
  have ext: "exists (claims ?t cid)"
    using ex1 by (rule run_exists_mono)
  have int: "lossAmount (claims ?t cid) = lossAmount (claims ?s cid) \<and>
             riskLevel (claims ?t cid) = riskLevel (claims ?s cid)"
    using run_inputs_fixed [OF inv1 ex1, of B cs] in1 by simp
  obtain s2 where e2: "evaluateClaim B b cid ?t = Inr s2"
    and p2: "payout (claims s2 cid) = payoutHandle (claims ?t cid)"
    using ext by (simp add: evaluateClaim_eq)
  have "payoutHandle (claims ?t cid) = payoutHandle (claims ?s cid)"
    using int by (simp add: payoutHandle_def)
  then have "decrypt B (payout (claims s2 cid)) = decrypt B (payout (claims ?s1 cid))"
    using p1 p2 by simp
  then show ?thesis
    using e1 e2 p1 by blast
qed

theorem evaluateClaim_repeatable_witness:
  "claimExists (run (testBackend (\<lambda>h. if h = 7 then 500 else 3)) deployed [(5, SubmitClaim 7 8 [])]) 0 \<and>
   (\<exists>s1 s2. evaluateClaim (testBackend (\<lambda>h. if h = 7 then 500 else 3)) 5 0
               (run (testBackend (\<lambda>h. if h = 7 then 500 else 3)) deployed [(5, SubmitClaim 7 8 [])]) = Inr s1 \<and>
            evaluateClaim (testBackend (\<lambda>h. if h = 7 then 500 else 3)) 6 0
               (run (testBackend (\<lambda>h. if h = 7 then 500 else 3)) s1 [(6, SubmitClaim 9 10 [])]) = Inr s2 \<and>
            decrypt (testBackend (\<lambda>h. if h = 7 then 500 else 3)) (payout (claims s1 0)) = 250 \<and>
            decrypt (testBackend (\<lambda>h. if h = 7 then 500 else 3)) (payout (claims s2 0)) = 250)"
proof -
  let ?B = "testBackend (\<lambda>h. if h = 7 then 500 else 3)"
  let ?s = "run ?B deployed [(5, SubmitClaim 7 8 [])]"
  have ex: "claimExists ?s 0"
    by (simp add: run_defs)
  from evaluateClaim_repeatable [OF ex, of 5 6 "[(6, SubmitClaim 9 10 [])]"]
  obtain s1 s2 where e1: "evaluateClaim ?B 5 0 ?s = Inr s1"
    and e2: "evaluateClaim ?B 6 0 (run ?B s1 [(6, SubmitClaim 9 10 [])]) = Inr s2"
    and eq: "decrypt ?B (payout (claims s2 0)) = decrypt ?B (payout (claims s1 0))"
    and p: "payout (claims s1 0) = payoutHandle (claims ?s 0)"
    by blast
  have "decrypt ?B (payoutHandle (claims ?s 0)) = 250"
    by (simp add: run_defs)
  then have "decrypt ?B (payout (claims s1 0)) = 250"
    by (simp only: p)
  then show ?thesis
    using ex e1 e2 eq by auto
qed

text \<open>
  C8: a successful \<open>evaluateClaim(id)\<close> changes only the \<open>payout\<close> field of
  claim \<open>id\<close>: that claim's \<open>lossAmount\<close> and \<open>riskLevel\<close> handles, every
  \<open>exists\<close> flag, all fields of every other claim and the claim counter are as before.
\<close>

theorem evaluateClaim_frame:
  assumes "evaluateClaim B sender cid s = Inr s'"
  shows "lossAmount (claims s' cid) = lossAmount (claims s cid) \<and>
         riskLevel (claims s' cid) = riskLevel (claims s cid) \<and>
         (\<forall>i. exists (claims s' i) = exists (claims s i)) \<and>
         (\<forall>i. i \<noteq> cid \<longrightarrow> claims s' i = claims s i) \<and>
         claimCounter s' = claimCounter s \<and>
         claims s' = (claims s)(cid := (claims s cid)\<lparr>payout := payout (claims s' cid)\<rparr>)"
  using assms by (auto simp: evaluateClaim_eq split: if_splits)

theorem evaluateClaim_frame_witness:
  "(\<exists>s'. evaluateClaim (testBackend (\<lambda>_. 2)) 6 0
            (run (testBackend (\<lambda>_. 2)) deployed [(5, SubmitClaim 7 8 []), (5, SubmitClaim 9 10 [])]) = Inr s' \<and>
         getClaimCount s' = 2 \<and> claims s' 1 = claims (run (testBackend (\<lambda>_. 2)) deployed [(5, SubmitClaim 7 8 []), (5, SubmitClaim 9 10 [])]) 1
         \<and> lossAmount (claims s' 0) = FromExternal 7 \<and> riskLevel (claims s' 0) = FromExternal 8)"
proof -
  let ?B = "testBackend (\<lambda>_. 2)"
  let ?s = "run ?B deployed [(5, SubmitClaim 7 8 []), (5, SubmitClaim 9 10 [])]"
  have "exists (claims ?s 0)"
    by (simp add: run_defs)
  then obtain s' where e: "evaluateClaim ?B 6 0 ?s = Inr s'"
    by (simp add: evaluateClaim_eq)
  have c: "claimCounter ?s = 2" and l: "lossAmount (claims ?s 0) = FromExternal 7"
    and r: "riskLevel (claims ?s 0) = FromExternal 8"
    by (simp_all add: run_defs)
  from evaluateClaim_frame [OF e] have "getClaimCount s' = 2 \<and> claims s' 1 = claims ?s 1 \<and>
      lossAmount (claims s' 0) = FromExternal 7 \<and> riskLevel (claims s' 0) = FromExternal 8"
    using c l r by (simp add: getClaimCount_def)
  then show ?thesis using e by blast
qed

section \<open>Calls on claims that do not exist\<close>

lemmas view_defs = getLossAmount_def getRiskLevel_def getPayout_def getClaim_def decryptedPayout_def

text \<open>
  C6: \<open>evaluateClaim\<close>, \<open>getLossAmount\<close>, \<open>getRiskLevel\<close>, \<open>getPayout\<close> and
  \<open>getClaim\<close> fail with \<open>NotFound\<close> exactly when the claim id does not exist, and
  succeed otherwise; a failing call leaves the whole state (counter, claims, grants and
  log) as it was; and in every state reached from deployment an id at or beyond the
  counter does not exist.
\<close>

theorem notFound_exactly_and_atomic:
  "(evaluateClaim B sender cid s = Inl NotFound \<longleftrightarrow> \<not> claimExists s cid) \<and>
   ((\<exists>s'. evaluateClaim B sender cid s = Inr s') \<longleftrightarrow> claimExists s cid) \<and>
   (getLossAmount s cid = Inl NotFound \<longleftrightarrow> \<not> claimExists s cid) \<and>
   ((\<exists>h. getLossAmount s cid = Inr h) \<longleftrightarrow> claimExists s cid) \<and>
   (getRiskLevel s cid = Inl NotFound \<longleftrightarrow> \<not> claimExists s cid) \<and>
   ((\<exists>h. getRiskLevel s cid = Inr h) \<longleftrightarrow> claimExists s cid) \<and>
   (getPayout s cid = Inl NotFound \<longleftrightarrow> \<not> claimExists s cid) \<and>
   ((\<exists>h. getPayout s cid = Inr h) \<longleftrightarrow> claimExists s cid) \<and>
   (getClaim s cid = Inl NotFound \<longleftrightarrow> \<not> claimExists s cid) \<and>
   ((\<exists>h. getClaim s cid = Inr h) \<longleftrightarrow> claimExists s cid) \<and>
   (\<not> claimExists s cid \<longrightarrow>
      c \<in> {EvaluateClaim cid, GetLossAmount cid, GetRiskLevel cid, GetPayout cid, GetClaim cid} \<longrightarrow>
      transact B sender c s = (Inl NotFound, s)) \<and>
   (getClaimCount (run B deployed cs) \<le> cid \<longrightarrow> \<not> claimExists (run B deployed cs) cid)"
proof -
  have 1: "(evaluateClaim B sender cid s = Inl NotFound) = (\<not> claimExists s cid)"
    and 2: "(\<exists>s'. evaluateClaim B sender cid s = Inr s') = claimExists s cid"
    by (simp_all add: evaluateClaim_eq claimExists_def)
  have 3: "(getLossAmount s cid = Inl NotFound) = (\<not> claimExists s cid)"
    and 4: "(\<exists>h. getLossAmount s cid = Inr h) = claimExists s cid"
    and 5: "(getRiskLevel s cid = Inl NotFound) = (\<not> claimExists s cid)"
    and 6: "(\<exists>h. getRiskLevel s cid = Inr h) = claimExists s cid"
    and 7: "(getPayout s cid = Inl NotFound) = (\<not> claimExists s cid)"
    and 8: "(\<exists>h. getPayout s cid = Inr h) = claimExists s cid"
    and 9: "(getClaim s cid = Inl NotFound) = (\<not> claimExists s cid)"
    and 10: "(\<exists>h. getClaim s cid = Inr h) = claimExists s cid"
    by (simp_all add: view_defs claimExists_def)
  have 11: "\<not> claimExists s cid \<longrightarrow>
      c \<in> {EvaluateClaim cid, GetLossAmount cid, GetRiskLevel cid, GetPayout cid, GetClaim cid} \<longrightarrow>
      transact B sender c s = (Inl NotFound, s)"
    by (auto simp: transact_def evaluateClaim_eq view_defs claimExists_def bind_result_def)
  have 12: "getClaimCount (run B deployed cs) \<le> cid \<longrightarrow> \<not> claimExists (run B deployed cs) cid"
    using reachable_exists_iff [of B cs cid]
    by (simp add: claimExists_def getClaimCount_def not_less)
  show ?thesis
    using 1 2 3 4 5 6 7 8 9 10 11 12 by blast
qed

theorem notFound_exactly_and_atomic_witness:
  "\<not> claimExists deployed 3 \<and>
   evaluateClaim (testBackend (\<lambda>_. 0)) 5 3 deployed = Inl NotFound \<and>
   getPayout deployed 3 = Inl NotFound \<and>
   transact (testBackend (\<lambda>_. 0)) 5 (EvaluateClaim 3) deployed = (Inl NotFound, deployed) \<and>
   transact (testBackend (\<lambda>_. 0)) 5 (GetClaim 3) deployed = (Inl NotFound, deployed)"
proof -
  let ?B = "testBackend (\<lambda>_. 0)"
  have c: "getClaimCount (run ?B deployed []) \<le> 3"
    by (simp add: getClaimCount_def deployed_def)
  note t = notFound_exactly_and_atomic [of ?B 5 3 deployed _ "[]"]
  have n: "\<not> claimExists deployed 3"
    using t c by simp
  have e: "evaluateClaim ?B 5 3 deployed = Inl NotFound"
    and p: "getPayout deployed 3 = Inl NotFound"
    using t n by blast+
  have t1: "transact ?B 5 (EvaluateClaim 3) deployed = (Inl NotFound, deployed)"
    using notFound_exactly_and_atomic [of ?B 5 3 deployed "EvaluateClaim 3" "[]"] n by simp
  have t2: "transact ?B 5 (GetClaim 3) deployed = (Inl NotFound, deployed)"
    using notFound_exactly_and_atomic [of ?B 5 3 deployed "GetClaim 3" "[]"] n by simp
  show ?thesis
    using n e p t1 t2 by blast
qed

section \<open>Access grants\<close>

text \<open>
  C10: a submission issues grants only on the \<open>lossAmount\<close> and \<open>riskLevel\<close>
  handles, to the contract and to the submitter. The encrypted zero stored as
  \<open>payout\<close> receives no grant: as long as the claim has not been evaluated,
  \<open>getPayout\<close> returns that handle and no principal, the contract included, holds a
  grant on it, whatever other calls are made in between.
\<close>

theorem payout_handle_ungranted_until_evaluated:
  assumes "submitClaim B sender l r p (run B deployed cs0) = Inr (cid, s')"
    and "\<forall>a. (a, EvaluateClaim cid) \<notin> set cs"
  shows "acl s' = acl (run B deployed cs0) \<union>
           {(FromExternal l, contractAddress B), (FromExternal l, sender),
            (FromExternal r, contractAddress B), (FromExternal r, sender)} \<and>
         getLossAmount s' cid = Inr (FromExternal l) \<and>
         getRiskLevel s' cid = Inr (FromExternal r) \<and>
         getPayout (run B s' cs) cid = Inr (FHE_asEuint32 0) \<and>
         (\<forall>who. (FHE_asEuint32 0, who) \<notin> acl (run B s' cs))"
proof -
  let ?s = "run B deployed cs0"
  have s': "s' = run B deployed (cs0 @ [(sender, SubmitClaim l r p)])"
    using assms(1) by (simp add: run_append step_eq)
  have grants: "acl s' = acl ?s \<union>
           {(FromExternal l, contractAddress B), (FromExternal l, sender),
            (FromExternal r, contractAddress B), (FromExternal r, sender)}"
    using assms(1) by (auto simp: submitClaim_eq split: if_splits)
  have stored: "claims s' cid = \<lparr>lossAmount = FromExternal l, riskLevel = FromExternal r,
                   payout = TrivialEncrypt 0, exists = True\<rparr>"
    using assms(1) by (auto simp: submitClaim_eq split: if_splits)
  have inv: "\<forall>i. exists (claims s' i) = (i < claimCounter s')"
    unfolding s' using reachable_exists_iff by blast
  have ex: "exists (claims s' cid)"
    by (simp add: stored)
  have "payout (claims (run B s' cs) cid) = payout (claims s' cid)"
    using inv ex assms(2) by (rule run_payout_fixed)
  moreover have "exists (claims (run B s' cs) cid)"
    using ex by (rule run_exists_mono)
  ultimately have pay: "getPayout (run B s' cs) cid = Inr (FHE_asEuint32 0)"
    by (simp add: getPayout_def stored FHE_asEuint32_def)
  have none: "\<forall>who. (FHE_asEuint32 0, who) \<notin> acl (run B s' cs)"
    unfolding s' run_append [symmetric] FHE_asEuint32_def
    using reachable_trivial_ungranted by blast
  show ?thesis
    using grants pay none by (simp add: getLossAmount_def getRiskLevel_def stored)
qed

theorem payout_handle_ungranted_until_evaluated_witness:
  "(\<exists>s'. submitClaim (testBackend (\<lambda>_. 1)) 5 7 8 [] deployed = Inr (0, s') \<and>
     acl s' = {(FromExternal 7, 99), (FromExternal 7, 5), (FromExternal 8, 99), (FromExternal 8, 5)} \<and>
     getPayout (run (testBackend (\<lambda>_. 1)) s' [(6, SubmitClaim 9 10 []), (6, EvaluateClaim 1)]) 0 = Inr (FHE_asEuint32 0) \<and>
     (FHE_asEuint32 0, 99) \<notin> acl (run (testBackend (\<lambda>_. 1)) s' [(6, SubmitClaim 9 10 []), (6, EvaluateClaim 1)]) \<and>
     (FHE_asEuint32 0, 5) \<notin> acl (run (testBackend (\<lambda>_. 1)) s' [(6, SubmitClaim 9 10 []), (6, EvaluateClaim 1)]))"
proof -
  let ?B = "testBackend (\<lambda>_. 1)"
  let ?cs = "[(6, SubmitClaim 9 10 []), (6 :: address, EvaluateClaim 1)]"
  obtain s' where sub: "submitClaim ?B 5 7 8 [] (run ?B deployed []) = Inr (0, s')"
    by (simp add: submitClaim_eq testBackend_def deployed_def)
  have ne: "\<forall>a. (a, EvaluateClaim 0) \<notin> set ?cs"
    by simp
  have a0: "acl (run ?B deployed []) = {}" and ca: "contractAddress ?B = 99"
    by (simp_all add: deployed_def testBackend_def)
  from payout_handle_ungranted_until_evaluated [OF sub ne]
  have "acl s' = {(FromExternal 7, 99), (FromExternal 7, 5), (FromExternal 8, 99), (FromExternal 8, 5)} \<and>
     getPayout (run ?B s' ?cs) 0 = Inr (FHE_asEuint32 0) \<and>
     (FHE_asEuint32 0, 99) \<notin> acl (run ?B s' ?cs) \<and>
     (FHE_asEuint32 0, 5) \<notin> acl (run ?B s' ?cs)"
    unfolding a0 ca by blast
  then show ?thesis
    using sub by auto
qed

section \<open>The payout arithmetic\<close>

text \<open>
  What \<open>evaluateClaim\<close> stores decrypts to the formula computed in 32-bit words. It
  is the exact quotient whenever the product of loss amount and payout percent fits
  into 32 bits, which for a 100\% payout means a loss amount of at most 429496.
\<close>

lemma payout_wrapping_formula:
  "decrypt B (payoutHandle c) =
     (decrypt B (lossAmount c) * (10000 - (decrypt B (riskLevel c) - 1) * 2500)) div 10000"
  by (simp add: payoutHandle_def)

lemma payout_without_overflow:
  assumes "decrypt B (riskLevel c) \<in> {1, 2, 3}"
    and "unat (decrypt B (lossAmount c)) * (10000 - (unat (decrypt B (riskLevel c)) - 1) * 2500) < 2 ^ 32"
  shows "unat (decrypt B (payoutHandle c)) =
         unat (decrypt B (lossAmount c)) * (10000 - (unat (decrypt B (riskLevel c)) - 1) * 2500) div 10000"
proof -
  define k :: uint32 where "k = 10000 - (decrypt B (riskLevel c) - 1) * 2500"
  have pk: "decrypt B (payoutHandle c) = (decrypt B (lossAmount c) * k) div 10000"
    unfolding k_def by (rule payout_wrapping_formula)
  have k: "unat k = 10000 - (unat (decrypt B (riskLevel c)) - 1) * 2500"
    using assms(1) by (auto simp: k_def)
  have "unat (decrypt B (lossAmount c)) * unat k < 2 ^ LENGTH(32)"
    using assms(2) by (simp add: k)
  then have "unat (decrypt B (lossAmount c) * k) = unat (decrypt B (lossAmount c)) * unat k"
    by (rule iffD1 [OF unat_mult_lem])
  then have "unat ((decrypt B (lossAmount c) * k) div 10000) = unat (decrypt B (lossAmount c)) * unat k div 10000"
    by (simp add: unat_div)
  then show ?thesis
    by (simp only: pk k)
qed

text \<open>
  C1: for a stored claim with risk level in \<open>{1, 2, 3}\<close> the payout should be
  \<open>floor(lossAmount * (10000 - (riskLevel - 1) * 2500) / 10000)\<close>. The code does
  not deliver this once the product overflows 32 bits: with loss amount 1000000 and
  risk level 3 the product 5000000000 wraps to 705032704, and the stored payout
  decrypts to 70503 instead of 500000.
\<close>

theorem payout_formula_overflows:
  "decrypt (scenarioBackend 1000000 3) (lossAmount (claims (scenario 1000000 3) 0)) = 1000000 \<and>
   decrypt (scenarioBackend 1000000 3) (riskLevel (claims (scenario 1000000 3) 0)) = 3 \<and>
   decryptedPayout (scenarioBackend 1000000 3) (scenario 1000000 3) 0 = Inr 70503 \<and>
   (1000000 * (10000 - (3 - 1) * 2500)) div 10000 = (500000 :: nat)"
  by (simp add: scenario_def scenarioBackend_def run_defs view_defs)

text \<open>
  C2: on a fresh ledger, submitting loss amount 1000000000 with risk level 2 returns
  claim id 0, and evaluating claim 0 should store a payout of 750000000. The code
  returns id 0, but the product 7500000000000 wraps modulo \<open>2 ^ 32\<close> to 987101184
  and the stored payout decrypts to 98710.
\<close>

theorem scenario_medium_risk_overflows:
  "fst (transact (scenarioBackend 1000000000 2) 5 (SubmitClaim 7 8 []) deployed) = Inr (RetId 0) \<and>
   decrypt (scenarioBackend 1000000000 2) (lossAmount (claims (scenario 1000000000 2) 0))
     = 1000000000 \<and>
   decrypt (scenarioBackend 1000000000 2) (riskLevel (claims (scenario 1000000000 2) 0)) = 2 \<and>
   decryptedPayout (scenarioBackend 1000000000 2) (scenario 1000000000 2) 0 = Inr 98710"
  by (simp add: scenario_def scenarioBackend_def run_defs view_defs)

text \<open>
  C3: with risk level 1 the payout should equal the loss amount for every 32-bit loss
  amount. The code multiplies by 10000 in 32 bits before dividing: with loss amount
  10000000 the product 100000000000 wraps to 1215752192 and the stored payout decrypts
  to 121575.
\<close>

theorem low_risk_overflows:
  "decrypt (scenarioBackend 10000000 1) (lossAmount (claims (scenario 10000000 1) 0)) = 10000000 \<and>
   decrypt (scenarioBackend 10000000 1) (riskLevel (claims (scenario 10000000 1) 0)) = 1 \<and>
   decryptedPayout (scenarioBackend 10000000 1) (scenario 10000000 1) 0 = Inr 121575"
  by (simp add: scenario_def scenarioBackend_def run_defs view_defs)

end
